theory Spec2Isabelle
  imports Main
begin

section \<open>Data model\<close>

text \<open>
  The operating-mode controller of \<^verbatim>\<open>openrtx/src/rtx/OpMode_APRS.cpp\<close>. The headers
  that declare its types are not part of the sources, so the records below hold exactly
  the fields the C++ file reads and writes. The volume helper of lines 17-42 and 130-133
  is compiled for one platform only and touches none of this state; it is left out.
\<close>

datatype opStatus_t = OFF | RX | TX

datatype led_t = GREEN | RED

datatype audioSource = SOURCE_MIC | SOURCE_RTX

datatype audioSink = SINK_SPK | SINK_RTX

datatype audioPrio = PRIO_RX | PRIO_TX

text \<open>
  Modelled from the spec: the type \<^verbatim>\<open>rssi_t\<close> is declared in a header that is not
  among the sources; the spec computes the threshold "in integer arithmetic", so a signal
  strength is an integer. For an 8-bit squelch level the threshold of line 139 lies
  between -127 and 995, so no conversion of the source can wrap.
\<close>

type_synonym rssi_t = int

type_synonym pathId_t = int

type_synonym datetime_t = nat

text \<open>A pointer to a packet: \<open>None\<close> is \<^verbatim>\<open>NULL\<close>, \<open>Some a\<close> the block at address \<open>a\<close>.\<close>

type_synonym addr_t = nat

type_synonym pkt_ptr = "addr_t option"

record aprsAddress_t =
  addr :: string
  ssid :: nat

text \<open>
  A packet. The chain of address records and the payload are owned by the packet and
  are kept inside its value; only the queue links are pointers.
\<close>

record aprsPacket_t =
  pkt_prev :: pkt_ptr
  pkt_next :: pkt_ptr
  addresses :: "aprsAddress_t list"
  info :: string
  ts :: datetime_t

text \<open>
  Modelled from the spec: the fields of \<^verbatim>\<open>rtxStatus_t\<close> (declared in a header that is
  not among the sources) that this file uses. The spec gives \<open>squelchLevel\<close> as an
  integer and \<open>toneSquelchEnabled\<close>, \<open>transmitDisabled\<close> as booleans; the tests
  \<^verbatim>\<open>rxToneEn == 0\<close>, \<^verbatim>\<open>rxToneEn == 1\<close> and \<^verbatim>\<open>txDisable == 0\<close> of the source are
  the tests \<open>= False\<close>, \<open>= True\<close> and \<open>= False\<close> here.
\<close>

record rtxStatus_t =
  opStatus :: opStatus_t
  sqlLevel :: nat
  rxToneEn :: bool
  txDisable :: bool
  aprsRecv :: nat
  aprsSaved :: nat
  aprsPkts :: pkt_ptr

text \<open>The member variables of the class \<^verbatim>\<open>OpMode_APRS\<close>.\<close>

record OpMode_APRS =
  rfSqlOpen :: bool
  sqlOpen :: bool
  enterRx :: bool
  makePkts :: bool
  rxAudioPath :: pathId_t
  txAudioPath :: pathId_t

text \<open>
  Every call to a collaborator that acts on the hardware is recorded, in the order of
  the calls.
\<close>

datatype event =
  RadioDisableRtx
  | RadioEnableRx
  | RadioEnableTx
  | AudioPathRequest audioSource audioSink audioPrio
  | AudioPathRelease pathId_t
  | LedOn led_t
  | LedOff led_t
  | SleepFor nat nat

text \<open>
  What the collaborators return during one call of \<^verbatim>\<open>update\<close>, one field for each
  call site: \<^verbatim>\<open>rtx_getRssi\<close> (line 140), \<^verbatim>\<open>radio_checkRxDigitalSquelch\<close> (lines 152
  and 197), \<^verbatim>\<open>platform_getPttStatus\<close> (lines 174 and 185), \<^verbatim>\<open>audioPath_request\<close>
  (lines 156 and 179) and \<^verbatim>\<open>platform_getCurrentTime\<close> (line 110, at iteration \<open>i\<close>).
\<close>

record inputs =
  in_rssi :: rssi_t
  in_toneSql :: bool
  in_toneLed :: bool
  in_ptt1 :: bool
  in_ptt2 :: bool
  in_rxPath :: pathId_t
  in_txPath :: pathId_t
  in_time :: "nat \<Rightarrow> datetime_t"

text \<open>
  The state the controller works on: its own members, the shared status record (the one
  \<^verbatim>\<open>update\<close> receives by pointer and \<^verbatim>\<open>rtx_getCurrentStatus\<close> copies), the packets
  that are allocated (\<open>heap\<close>) with the next address \<^verbatim>\<open>malloc\<close> hands out (\<open>brk\<close>),
  the audio paths the controller holds, and the collaborator calls made so far.
\<close>

record world =
  mode :: OpMode_APRS
  status :: rtxStatus_t
  heap :: "addr_t \<rightharpoonup> aprsPacket_t"
  brk :: addr_t
  paths :: "(pathId_t \<times> audioSource \<times> audioSink) list"
  trace :: "event list"

text \<open>A memory access the C standard leaves undefined: the block is not allocated.\<close>

datatype error = InvalidRead addr_t | InvalidWrite addr_t | InvalidFree addr_t

section \<open>Collaborators\<close>

definition emit :: "event \<Rightarrow> world \<Rightarrow> world" where
  "emit e w = w\<lparr>trace := trace w @ [e]\<rparr>"

definition radio_disableRtx :: "world \<Rightarrow> world" where
  "radio_disableRtx w = emit RadioDisableRtx w"

definition radio_enableRx :: "world \<Rightarrow> world" where
  "radio_enableRx w = emit RadioEnableRx w"

definition radio_enableTx :: "world \<Rightarrow> world" where
  "radio_enableTx w = emit RadioEnableTx w"

definition platform_ledOn :: "led_t \<Rightarrow> world \<Rightarrow> world" where
  "platform_ledOn l w = emit (LedOn l) w"

definition platform_ledOff :: "led_t \<Rightarrow> world \<Rightarrow> world" where
  "platform_ledOff l w = emit (LedOff l) w"

definition sleepFor :: "nat \<Rightarrow> nat \<Rightarrow> world \<Rightarrow> world" where
  "sleepFor s ms w = emit (SleepFor s ms) w"

text \<open>
  Modelled from the spec: the audio path collaborator (\<^verbatim>\<open>audioPath_request\<close>,
  \<^verbatim>\<open>audioPath_release\<close>; its code is not among the sources). A request returns a handle
  or a failure, "a failed/non-positive request result" meaning "not granted": the path is
  held from a request with a positive result \<open>r\<close> until the release of \<open>r\<close>. The result
  itself comes from \<open>inputs\<close>.
\<close>

definition audioPath_request ::
  "pathId_t \<Rightarrow> audioSource \<Rightarrow> audioSink \<Rightarrow> audioPrio \<Rightarrow> world \<Rightarrow> world" where
  "audioPath_request r src snk prio w =
     emit (AudioPathRequest src snk prio)
       (w\<lparr>paths := (if r > 0 then paths w @ [(r, src, snk)] else paths w)\<rparr>)"

definition audioPath_release :: "pathId_t \<Rightarrow> world \<Rightarrow> world" where
  "audioPath_release i w =
     emit (AudioPathRelease i) (w\<lparr>paths := filter (\<lambda>p. fst p \<noteq> i) (paths w)\<rparr>)"

text \<open>The RX path (receiver to speaker) or the TX path (microphone to transmitter) is held.\<close>

definition rxPathOpen :: "world \<Rightarrow> bool" where
  "rxPathOpen w = list_ex (\<lambda>p. snd p = (SOURCE_RTX, SINK_SPK)) (paths w)"

definition txPathOpen :: "world \<Rightarrow> bool" where
  "txPathOpen w = list_ex (\<lambda>p. snd p = (SOURCE_MIC, SINK_RTX)) (paths w)"

section \<open>C arithmetic and string helpers\<close>

text \<open>Division of C integers truncates towards zero.\<close>

definition c_div :: "int \<Rightarrow> int \<Rightarrow> int" where
  "c_div a b = sgn a * sgn b * (\<bar>a\<bar> div \<bar>b\<bar>)"

text \<open>The decimal digits \<^verbatim>\<open>%d\<close> prints for a number that is not negative.\<close>

fun dec :: "nat \<Rightarrow> string" where
  "dec n = (if n < 10 then [char_of (48 + n)] else dec (n div 10) @ [char_of (48 + n mod 10)])"

text \<open>\<^verbatim>\<open>sniprintf(buf, n, ...)\<close> stores at most \<open>n - 1\<close> characters of the text.\<close>

definition sniprintf :: "nat \<Rightarrow> string \<Rightarrow> string" where
  "sniprintf n s = take (n - 1) s"

text \<open>\<^verbatim>\<open>strncpy(buf, s, n)\<close> into a buffer whose last byte is already the terminator.\<close>

definition strncpy :: "string \<Rightarrow> nat \<Rightarrow> string" where
  "strncpy s n = take n s"

section \<open>OpMode_APRS\<close>

subsection \<open>Constructor, enable, rxSquelchOpen (lines 44-59 and 226-229)\<close>

text \<open>
  The constructor initialises three members; \<open>makePkts\<close> and the two path handles keep
  whatever the object's memory held (\<open>m\<close>).
\<close>

definition OpMode_APRS_init :: "OpMode_APRS \<Rightarrow> OpMode_APRS" where
  "OpMode_APRS_init m = m\<lparr>rfSqlOpen := False, sqlOpen := False, enterRx := True\<rparr>"

definition enable :: "world \<Rightarrow> world" where
  "enable w =
     w\<lparr>mode := (mode w)\<lparr>rfSqlOpen := False, sqlOpen := False, enterRx := True, makePkts := True\<rparr>\<rparr>"

definition rxSquelchOpen :: "world \<Rightarrow> bool" where
  "rxSquelchOpen w = sqlOpen (mode w)"

subsection \<open>Test packets (lines 85-128)\<close>

text \<open>The packet built by one iteration of the loop, before it is inserted (lines 91-110).\<close>

definition test_pkt :: "nat \<Rightarrow> datetime_t \<Rightarrow> aprsPacket_t" where
  "test_pkt i t =
     \<lparr>pkt_prev = None, pkt_next = None,
      addresses =
        [\<lparr>addr = sniprintf 6 (''APRS'' @ dec i), ssid = 0\<rparr>,
         \<lparr>addr = strncpy ''N2BP'' 6, ssid = 7\<rparr>],
      info = sniprintf 16 ('':Test packet '' @ dec i),
      ts = t\<rparr>"

text \<open>
  Modelled from the spec: \<^verbatim>\<open>aprsPktsInsert\<close> (its code is not among the sources). The
  spec documents the insertion as "append-to-front", "maintaining bidirectional links",
  and "inserting into an empty queue must produce a single-node queue whose
  previous/next references are both empty-equivalent". It returns the new head. Linking
  writes to the new packet and to the old head, so both must be allocated.
\<close>

definition aprsPktsInsert ::
  "(addr_t \<rightharpoonup> aprsPacket_t) \<Rightarrow> pkt_ptr \<Rightarrow> addr_t \<Rightarrow> error + ((addr_t \<rightharpoonup> aprsPacket_t) \<times> pkt_ptr)" where
  "aprsPktsInsert h hd_ptr pkt =
     (case h pkt of
        None \<Rightarrow> Inl (InvalidWrite pkt)
      | Some p \<Rightarrow>
          (case hd_ptr of
             None \<Rightarrow> Inr (h(pkt \<mapsto> p\<lparr>pkt_prev := None, pkt_next := None\<rparr>), Some pkt)
           | Some a \<Rightarrow>
               (case h a of
                  None \<Rightarrow> Inl (InvalidWrite a)
                | Some q \<Rightarrow>
                    Inr (h(pkt \<mapsto> p\<lparr>pkt_prev := None, pkt_next := Some a\<rparr>,
                           a \<mapsto> q\<lparr>pkt_prev := Some pkt\<rparr>),
                         Some pkt))))"

text \<open>
  The loop of lines 90-112 on the packet store, the allocation pointer and the queue
  head. \<^verbatim>\<open>malloc\<close> is taken to succeed and returns the block at \<open>brk\<close>; the source
  does not test its result.
\<close>

function make_pkts_loop ::
  "(nat \<Rightarrow> datetime_t) \<Rightarrow> nat \<Rightarrow> (addr_t \<rightharpoonup> aprsPacket_t) \<times> addr_t \<times> pkt_ptr
     \<Rightarrow> error + ((addr_t \<rightharpoonup> aprsPacket_t) \<times> addr_t \<times> pkt_ptr)" where
  "make_pkts_loop now i (h, b, q) =
     (if i < 10 then
        (case aprsPktsInsert (h(b \<mapsto> test_pkt i (now i))) q b of
           Inl e \<Rightarrow> Inl e
         | Inr (h', q') \<Rightarrow> make_pkts_loop now (i + 1) (h', b + 1, q'))
      else Inr (h, b, q))"
  by pat_completeness auto
termination
  by (relation "measure (\<lambda>(now, i, s). 10 - i)") auto

declare make_pkts_loop.simps [simp del]

definition make_test_pkts :: "inputs \<Rightarrow> world \<Rightarrow> error + world" where
  "make_test_pkts inp w =
     (if makePkts (mode w) then
        (case make_pkts_loop (in_time inp) 0 (heap w, brk w, aprsPkts (status w)) of
           Inl e \<Rightarrow> Inl e
         | Inr (h, b, q) \<Rightarrow>
             Inr (w\<lparr>heap := h, brk := b,
                    status := (status w)\<lparr>aprsRecv := 10, aprsSaved := 10, aprsPkts := q\<rparr>,
                    mode := (mode w)\<lparr>makePkts := False\<rparr>\<rparr>))
      else Inr w)"

subsection \<open>RX logic (lines 135-171)\<close>

text \<open>Line 139.\<close>

definition squelch_threshold :: "nat \<Rightarrow> rssi_t" where
  "squelch_threshold lvl = -127 + c_div (int lvl * 66) 15"

text \<open>Lines 144-147: the two tests run one after the other on the flag.\<close>

definition rf_squelch :: "rssi_t \<Rightarrow> rssi_t \<Rightarrow> bool \<Rightarrow> bool" where
  "rf_squelch squelch rssi isOpen =
     (let o1 = (if isOpen = False \<and> rssi > squelch + 1 then True else isOpen)
      in if o1 = True \<and> rssi < squelch - 1 then False else o1)"

text \<open>Lines 150-152: the local flags \<open>rfSql\<close> and \<open>toneSql\<close>.\<close>

definition rfSql :: "world \<Rightarrow> bool" where
  "rfSql w = (rxToneEn (status w) = False \<and> rfSqlOpen (mode w) = True)"

definition toneSql :: "inputs \<Rightarrow> world \<Rightarrow> bool" where
  "toneSql inp w = (rxToneEn (status w) = True \<and> in_toneSql inp)"

text \<open>Lines 155-164: audio control, for the values of the two local flags.\<close>

definition audio_control :: "inputs \<Rightarrow> bool \<Rightarrow> bool \<Rightarrow> world \<Rightarrow> world" where
  "audio_control inp rf tone w =
     (let w1 =
        (if sqlOpen (mode w) = False \<and> (rf \<or> tone) then
           (let w' = audioPath_request (in_rxPath inp) SOURCE_RTX SINK_SPK PRIO_RX w;
                w'' = w'\<lparr>mode := (mode w')\<lparr>rxAudioPath := in_rxPath inp\<rparr>\<rparr>
            in if rxAudioPath (mode w'') > 0
               then w''\<lparr>mode := (mode w'')\<lparr>sqlOpen := True\<rparr>\<rparr>
               else w'')
         else w)
      in if sqlOpen (mode w1) = True \<and> rf = False \<and> tone = False then
           (let w' = audioPath_release (rxAudioPath (mode w1)) w1
            in w'\<lparr>mode := (mode w')\<lparr>sqlOpen := False\<rparr>\<rparr>)
         else w1)"

definition rx_logic :: "inputs \<Rightarrow> world \<Rightarrow> world" where
  "rx_logic inp w =
     (if opStatus (status w) = RX then
        (let squelch = squelch_threshold (sqlLevel (status w));
             rssi = in_rssi inp;
             w1 = w\<lparr>mode := (mode w)\<lparr>rfSqlOpen := rf_squelch squelch rssi (rfSqlOpen (mode w))\<rparr>\<rparr>
         in audio_control inp (rfSql w1) (toneSql inp w1) w1)
      else if opStatus (status w) = OFF \<and> enterRx (mode w) then
        (let w1 = radio_enableRx (radio_disableRtx w)
         in w1\<lparr>status := (status w1)\<lparr>opStatus := RX\<rparr>, mode := (mode w1)\<lparr>enterRx := False\<rparr>\<rparr>)
      else w)"

subsection \<open>TX logic (lines 173-192)\<close>

definition tx_enter :: "inputs \<Rightarrow> world \<Rightarrow> world" where
  "tx_enter inp w =
     (if in_ptt1 inp \<and> opStatus (status w) \<noteq> TX \<and> txDisable (status w) = False then
        (let w1 = radio_disableRtx (audioPath_release (rxAudioPath (mode w)) w);
             w2 = audioPath_request (in_txPath inp) SOURCE_MIC SINK_RTX PRIO_TX w1;
             w3 = radio_enableTx (w2\<lparr>mode := (mode w2)\<lparr>txAudioPath := in_txPath inp\<rparr>\<rparr>)
         in w3\<lparr>status := (status w3)\<lparr>opStatus := TX\<rparr>\<rparr>)
      else w)"

definition tx_exit :: "inputs \<Rightarrow> world \<Rightarrow> world" where
  "tx_exit inp w =
     (if \<not> in_ptt2 inp \<and> opStatus (status w) = TX then
        (let w1 = radio_disableRtx (audioPath_release (txAudioPath (mode w)) w)
         in w1\<lparr>status := (status w1)\<lparr>opStatus := OFF\<rparr>,
               mode := (mode w1)\<lparr>enterRx := True, sqlOpen := False\<rparr>\<rparr>)
      else w)"

subsection \<open>Led control and the end of the cycle (lines 194-223)\<close>

definition led_logic :: "inputs \<Rightarrow> world \<Rightarrow> world" where
  "led_logic inp w =
     (case opStatus (status w) of
        RX \<Rightarrow>
          (if in_toneLed inp then platform_ledOn RED (platform_ledOn GREEN w)
           else if rfSqlOpen (mode w) then platform_ledOff RED (platform_ledOn GREEN w)
           else platform_ledOff RED (platform_ledOff GREEN w))
      | TX \<Rightarrow> platform_ledOn RED (platform_ledOff GREEN w)
      | OFF \<Rightarrow> platform_ledOff RED (platform_ledOff GREEN w))"

subsection \<open>update (lines 81-224)\<close>

text \<open>Everything after the test packets: it cannot fail.\<close>

definition control :: "inputs \<Rightarrow> world \<Rightarrow> world" where
  "control inp w = sleepFor 0 30 (led_logic inp (tx_exit inp (tx_enter inp (rx_logic inp w))))"

definition update :: "inputs \<Rightarrow> world \<Rightarrow> error + world" where
  "update inp w =
     (case make_test_pkts inp w of
        Inl e \<Rightarrow> Inl e
      | Inr w1 \<Rightarrow> Inr (control inp w1))"

text \<open>A sequence of update cycles, one element of \<open>inps\<close> for each.\<close>

fun run :: "world \<Rightarrow> inputs list \<Rightarrow> error + world" where
  "run w [] = Inr w"
| "run w (inp # inps) =
     (case update inp w of
        Inl e \<Rightarrow> Inl e
      | Inr w' \<Rightarrow> run w' inps)"

subsection \<open>disable (lines 61-79)\<close>

text \<open>
  Modelled from the spec: \<^verbatim>\<open>aprsPktFree\<close> (its code is not among the sources) releases
  the packet and the address records it owns. Releasing a block that is not allocated
  is an error.
\<close>

definition aprsPktFree ::
  "(addr_t \<rightharpoonup> aprsPacket_t) \<Rightarrow> addr_t \<Rightarrow> error + (addr_t \<rightharpoonup> aprsPacket_t)" where
  "aprsPktFree h a = (case h a of None \<Rightarrow> Inl (InvalidFree a) | Some p \<Rightarrow> Inr (h(a := None)))"

text \<open>Reading \<^verbatim>\<open>pkt->next\<close>: the block must be allocated.\<close>

definition load_next :: "(addr_t \<rightharpoonup> aprsPacket_t) \<Rightarrow> addr_t \<Rightarrow> error + pkt_ptr" where
  "load_next h a = (case h a of None \<Rightarrow> Inl (InvalidRead a) | Some p \<Rightarrow> Inr (pkt_next p))"

text \<open>
  The loop of lines 66-67: the body releases \<open>pkt\<close>, then the increment reads
  \<^verbatim>\<open>pkt->next\<close> from the block just released. A released block is no longer
  allocated, so that read always fails here and no run reaches a second iteration; this
  is what the termination proof rests on.
\<close>

function free_loop ::
  "(addr_t \<rightharpoonup> aprsPacket_t) \<Rightarrow> pkt_ptr \<Rightarrow> error + (addr_t \<rightharpoonup> aprsPacket_t)" where
  "free_loop h None = Inr h"
| "free_loop h (Some pkt) =
     (case aprsPktFree h pkt of
        Inl e \<Rightarrow> Inl e
      | Inr h' \<Rightarrow>
          (case load_next h' pkt of
             Inl e \<Rightarrow> Inl e
           | Inr nxt \<Rightarrow> free_loop h' nxt))"
  by pat_completeness auto
termination
  by (relation "{}") (auto simp: aprsPktFree_def load_next_def split: option.splits)

definition disable :: "world \<Rightarrow> error + world" where
  "disable w =
     (let st = status w
      in case (if aprsPkts st \<noteq> None then free_loop (heap w) (aprsPkts st) else Inr (heap w)) of
           Inl e \<Rightarrow> Inl e
         | Inr h \<Rightarrow>
             (let w1 = platform_ledOff RED (platform_ledOff GREEN (w\<lparr>heap := h\<rparr>));
                  w2 = audioPath_release (txAudioPath (mode w1))
                         (audioPath_release (rxAudioPath (mode w1)) w1);
                  w3 = radio_disableRtx w2
              in Inr (w3\<lparr>mode := (mode w3)\<lparr>rfSqlOpen := False, sqlOpen := False, enterRx := False\<rparr>\<rparr>)))"

section \<open>Derived notions\<close>

text \<open>
  The effective open decision in the spec's words: "if tone-squelch mode is disabled,
  open = RF-squelch-open flag; if enabled, open = digital squelch signal from the RF
  collaborator". It is compared below with the flags \<open>rfSql\<close> and \<open>toneSql\<close> of the source.
\<close>

definition effective_open :: "inputs \<Rightarrow> world \<Rightarrow> bool" where
  "effective_open inp w = (if rxToneEn (status w) then in_toneSql inp else rfSqlOpen (mode w))"

text \<open>The same decision, from the state at the start of an RX cycle.\<close>

definition decision :: "inputs \<Rightarrow> world \<Rightarrow> bool" where
  "decision inp w =
     (if rxToneEn (status w) then in_toneSql inp
      else rf_squelch (squelch_threshold (sqlLevel (status w))) (in_rssi inp) (rfSqlOpen (mode w)))"

text \<open>What a packet carries apart from its queue links.\<close>

definition payload :: "aprsPacket_t \<Rightarrow> aprsAddress_t list \<times> string \<times> datetime_t" where
  "payload p = (addresses p, info p, ts p)"

text \<open>The queue head is \<^verbatim>\<open>NULL\<close> or points to an allocated packet.\<close>

definition head_ok :: "(addr_t \<rightharpoonup> aprsPacket_t) \<Rightarrow> pkt_ptr \<Rightarrow> bool" where
  "head_ok h q = (case q of None \<Rightarrow> True | Some a \<Rightarrow> h a \<noteq> None)"

text \<open>
  The audio paths the controller holds: none, or the RX path under the handle
  \<open>rxAudioPath\<close> with the squelch-open flag set in state RX, or the TX path under the
  handle \<open>txAudioPath\<close> in state TX.
\<close>

definition path_inv :: "world \<Rightarrow> bool" where
  "path_inv w =
     (paths w = []
      \<or> (paths w = [(rxAudioPath (mode w), SOURCE_RTX, SINK_SPK)] \<and> sqlOpen (mode w)
           \<and> opStatus (status w) = RX)
      \<or> (paths w = [(txAudioPath (mode w), SOURCE_MIC, SINK_RTX)] \<and> opStatus (status w) = TX))"

section \<open>Example states and inputs\<close>

text \<open>Concrete states and inputs on which the theorems below are instantiated.\<close>

definition mode0 :: OpMode_APRS where
  "mode0 = \<lparr>rfSqlOpen = False, sqlOpen = False, enterRx = True, makePkts = False,
            rxAudioPath = 0, txAudioPath = 0\<rparr>"

definition status0 :: rtxStatus_t where
  "status0 = \<lparr>opStatus = OFF, sqlLevel = 4, rxToneEn = False, txDisable = False,
              aprsRecv = 0, aprsSaved = 0, aprsPkts = None\<rparr>"

text \<open>State OFF, about to enter RX, nothing allocated, no path held.\<close>

definition world0 :: world where
  "world0 = \<lparr>mode = mode0, status = status0, heap = Map.empty, brk = 1, paths = [], trace = []\<rparr>"

text \<open>State RX with the squelch closed.\<close>

definition world_rx :: world where
  "world_rx = world0\<lparr>mode := mode0\<lparr>enterRx := False\<rparr>, status := status0\<lparr>opStatus := RX\<rparr>\<rparr>"

text \<open>State RX with the squelch open and the RX audio path held under handle 1.\<close>

definition world_open :: world where
  "world_open = world_rx\<lparr>mode := mode0\<lparr>enterRx := False, rfSqlOpen := True, sqlOpen := True,
                                        rxAudioPath := 1\<rparr>,
                         paths := [(1, SOURCE_RTX, SINK_SPK)]\<rparr>"

text \<open>State OFF with transmit disabled.\<close>

definition status_txoff :: rtxStatus_t where
  "status_txoff = status0\<lparr>txDisable := True\<rparr>"

definition world_txoff :: world where
  "world_txoff = world0\<lparr>status := status_txoff\<rparr>"

text \<open>A queue of one packet, at address 1.\<close>

definition world_q1 :: world where
  "world_q1 = world0\<lparr>heap := [1 \<mapsto> test_pkt 0 1000], brk := 2,
                      status := status0\<lparr>aprsPkts := Some 1\<rparr>\<rparr>"

text \<open>
  Inputs: a weak signal (-120) with push-to-talk released; the same with a signal of
  -100 or of -110 (the threshold of squelch level 4); push-to-talk asserted; and
  push-to-talk asserted while the TX audio path request fails with -1.
\<close>

definition inp_idle :: inputs where
  "inp_idle = \<lparr>in_rssi = -120, in_toneSql = False, in_toneLed = False, in_ptt1 = False,
               in_ptt2 = False, in_rxPath = 1, in_txPath = 2, in_time = (\<lambda>i. 1000 + i)\<rparr>"

definition inp_strong :: inputs where
  "inp_strong = inp_idle\<lparr>in_rssi := -100\<rparr>"

definition inp_edge :: inputs where
  "inp_edge = inp_idle\<lparr>in_rssi := -110\<rparr>"

definition inp_ptt :: inputs where
  "inp_ptt = inp_idle\<lparr>in_ptt1 := True, in_ptt2 := True\<rparr>"

definition inp_ptt_strong :: inputs where
  "inp_ptt_strong = inp_ptt\<lparr>in_rssi := -100\<rparr>"

definition inp_tx_fail :: inputs where
  "inp_tx_fail = inp_ptt\<lparr>in_txPath := -1\<rparr>"

lemmas ex_defs = mode0_def status0_def world0_def world_rx_def inp_idle_def inp_ptt_def

lemmas ex_defs2 = inp_strong_def inp_edge_def status_txoff_def world_txoff_def

lemmas ex_defs3 = inp_tx_fail_def world_open_def world_q1_def inp_ptt_strong_def

section \<open>Arithmetic of the squelch threshold\<close>

lemma c_div_nonneg: "0 \<le> a \<Longrightarrow> 0 < b \<Longrightarrow> c_div a b = a div b"
  by (cases "a = 0") (simp_all add: c_div_def)

lemma squelch_threshold_eq: "squelch_threshold lvl = -127 + (int lvl * 66) div 15"
  by (simp add: squelch_threshold_def c_div_nonneg)

text \<open>
  Claim C5. For squelch levels \<open>l1 \<le> l2\<close> in 0..15, the threshold of line 139, computed
  with C's truncating division, equals \<open>-127 + (level * 66) div 15\<close>, does not decrease
  from \<open>l1\<close> to \<open>l2\<close>, and lies between -127 and -61.
\<close>

theorem squelch_threshold_range:
  assumes "l1 \<le> l2" "l2 \<le> 15"
  shows "squelch_threshold l1 = -127 + (int l1 * 66) div 15
       \<and> squelch_threshold l1 \<le> squelch_threshold l2
       \<and> -127 \<le> squelch_threshold l1 \<and> squelch_threshold l2 \<le> -61"
proof -
  have "int l1 * 66 \<le> int l2 * 66" using assms by simp
  then have m: "(int l1 * 66) div 15 \<le> (int l2 * 66) div 15" by (rule zdiv_mono1) simp
  have "int l2 * 66 \<le> 990" using assms by simp
  then have "(int l2 * 66) div 15 \<le> 990 div 15" by (rule zdiv_mono1) simp
  then have u: "(int l2 * 66) div 15 \<le> 66" by simp
  have l: "0 \<le> (int l1 * 66) div 15" by simp
  show ?thesis using m u l by (simp add: squelch_threshold_eq)
qed

theorem squelch_threshold_range_witness:
  "(3::nat) \<le> 15 \<and> (15::nat) \<le> 15 \<and> squelch_threshold 3 = -114 \<and> squelch_threshold 15 = -61
   \<and> squelch_threshold 3 \<le> squelch_threshold 15"
  using squelch_threshold_range [of 3 15] by (simp add: squelch_threshold_eq)

section \<open>What each block of update changes\<close>

lemma emit_fields [simp]:
  "mode (emit e w) = mode w" "status (emit e w) = status w" "heap (emit e w) = heap w"
  "brk (emit e w) = brk w" "paths (emit e w) = paths w" "trace (emit e w) = trace w @ [e]"
  by (simp_all add: emit_def)

lemmas collab_defs = radio_disableRtx_def radio_enableRx_def radio_enableTx_def
  platform_ledOn_def platform_ledOff_def sleepFor_def

lemma audioPath_request_fields [simp]:
  "mode (audioPath_request r s k p w) = mode w"
  "status (audioPath_request r s k p w) = status w"
  "heap (audioPath_request r s k p w) = heap w"
  "brk (audioPath_request r s k p w) = brk w"
  "paths (audioPath_request r s k p w) = (if r > 0 then paths w @ [(r, s, k)] else paths w)"
  "trace (audioPath_request r s k p w) = trace w @ [AudioPathRequest s k p]"
  by (simp_all add: audioPath_request_def)

lemma audioPath_release_fields [simp]:
  "mode (audioPath_release i w) = mode w"
  "status (audioPath_release i w) = status w"
  "heap (audioPath_release i w) = heap w"
  "brk (audioPath_release i w) = brk w"
  "paths (audioPath_release i w) = filter (\<lambda>p. fst p \<noteq> i) (paths w)"
  "trace (audioPath_release i w) = trace w @ [AudioPathRelease i]"
  by (simp_all add: audioPath_release_def)

lemma led_logic_fields [simp]:
  "mode (led_logic inp w) = mode w" "status (led_logic inp w) = status w"
  "heap (led_logic inp w) = heap w" "brk (led_logic inp w) = brk w"
  "paths (led_logic inp w) = paths w"
  by (simp_all add: led_logic_def collab_defs split: opStatus_t.splits)

lemma sleepFor_fields [simp]:
  "mode (sleepFor a b w) = mode w" "status (sleepFor a b w) = status w"
  "heap (sleepFor a b w) = heap w" "brk (sleepFor a b w) = brk w"
  "paths (sleepFor a b w) = paths w" "trace (sleepFor a b w) = trace w @ [SleepFor a b]"
  by (simp_all add: sleepFor_def)

lemma tx_exit_fields:
  "mode (tx_exit inp w) =
     (if \<not> in_ptt2 inp \<and> opStatus (status w) = TX
      then (mode w)\<lparr>enterRx := True, sqlOpen := False\<rparr> else mode w)"
  "status (tx_exit inp w) =
     (if \<not> in_ptt2 inp \<and> opStatus (status w) = TX
      then (status w)\<lparr>opStatus := OFF\<rparr> else status w)"
  "paths (tx_exit inp w) =
     (if \<not> in_ptt2 inp \<and> opStatus (status w) = TX
      then filter (\<lambda>p. fst p \<noteq> txAudioPath (mode w)) (paths w) else paths w)"
  "trace (tx_exit inp w) =
     (if \<not> in_ptt2 inp \<and> opStatus (status w) = TX
      then trace w @ [AudioPathRelease (txAudioPath (mode w)), RadioDisableRtx] else trace w)"
  "heap (tx_exit inp w) = heap w" "brk (tx_exit inp w) = brk w"
  by (simp_all add: tx_exit_def Let_def collab_defs)

lemma tx_enter_fields:
  "mode (tx_enter inp w) =
     (if in_ptt1 inp \<and> opStatus (status w) \<noteq> TX \<and> \<not> txDisable (status w)
      then (mode w)\<lparr>txAudioPath := in_txPath inp\<rparr> else mode w)"
  "status (tx_enter inp w) =
     (if in_ptt1 inp \<and> opStatus (status w) \<noteq> TX \<and> \<not> txDisable (status w)
      then (status w)\<lparr>opStatus := TX\<rparr> else status w)"
  "paths (tx_enter inp w) =
     (if in_ptt1 inp \<and> opStatus (status w) \<noteq> TX \<and> \<not> txDisable (status w)
      then filter (\<lambda>p. fst p \<noteq> rxAudioPath (mode w)) (paths w)
             @ (if in_txPath inp > 0 then [(in_txPath inp, SOURCE_MIC, SINK_RTX)] else [])
      else paths w)"
  "trace (tx_enter inp w) =
     (if in_ptt1 inp \<and> opStatus (status w) \<noteq> TX \<and> \<not> txDisable (status w)
      then trace w @ [AudioPathRelease (rxAudioPath (mode w)), RadioDisableRtx,
                      AudioPathRequest SOURCE_MIC SINK_RTX PRIO_TX, RadioEnableTx]
      else trace w)"
  "heap (tx_enter inp w) = heap w" "brk (tx_enter inp w) = brk w"
  by (simp_all add: tx_enter_def Let_def collab_defs)

lemma audio_control_fields:
  "status (audio_control inp rf tone w) = status w"
  "heap (audio_control inp rf tone w) = heap w"
  "brk (audio_control inp rf tone w) = brk w"
  "rfSqlOpen (mode (audio_control inp rf tone w)) = rfSqlOpen (mode w)"
  "enterRx (mode (audio_control inp rf tone w)) = enterRx (mode w)"
  "makePkts (mode (audio_control inp rf tone w)) = makePkts (mode w)"
  "txAudioPath (mode (audio_control inp rf tone w)) = txAudioPath (mode w)"
  by (simp_all add: audio_control_def Let_def)

lemma rx_logic_fields:
  "heap (rx_logic inp w) = heap w"
  "brk (rx_logic inp w) = brk w"
  "makePkts (mode (rx_logic inp w)) = makePkts (mode w)"
  "txAudioPath (mode (rx_logic inp w)) = txAudioPath (mode w)"
  "sqlLevel (status (rx_logic inp w)) = sqlLevel (status w)"
  "rxToneEn (status (rx_logic inp w)) = rxToneEn (status w)"
  "txDisable (status (rx_logic inp w)) = txDisable (status w)"
  "aprsPkts (status (rx_logic inp w)) = aprsPkts (status w)"
  "opStatus (status (rx_logic inp w)) =
     (if opStatus (status w) = OFF \<and> enterRx (mode w) then RX else opStatus (status w))"
  "rfSqlOpen (mode (rx_logic inp w)) =
     (if opStatus (status w) = RX
      then rf_squelch (squelch_threshold (sqlLevel (status w))) (in_rssi inp) (rfSqlOpen (mode w))
      else rfSqlOpen (mode w))"
  by (simp_all add: rx_logic_def Let_def audio_control_fields collab_defs)

lemma make_test_pkts_frame:
  assumes "make_test_pkts inp w = Inr w1"
  shows "rfSqlOpen (mode w1) = rfSqlOpen (mode w)" "sqlOpen (mode w1) = sqlOpen (mode w)"
    "enterRx (mode w1) = enterRx (mode w)" "rxAudioPath (mode w1) = rxAudioPath (mode w)"
    "txAudioPath (mode w1) = txAudioPath (mode w)" "makePkts (mode w1) = False"
    "opStatus (status w1) = opStatus (status w)" "sqlLevel (status w1) = sqlLevel (status w)"
    "rxToneEn (status w1) = rxToneEn (status w)" "txDisable (status w1) = txDisable (status w)"
    "paths w1 = paths w" "trace w1 = trace w"
  using assms by (auto simp: make_test_pkts_def split: if_splits sum.splits)

lemma update_InrD:
  assumes "update inp w = Inr w'"
  obtains w1 where "make_test_pkts inp w = Inr w1" "w' = control inp w1"
  using assms by (auto simp: update_def split: sum.splits)

lemma control_rfSqlOpen:
  "rfSqlOpen (mode (control inp w)) =
     (if opStatus (status w) = RX
      then rf_squelch (squelch_threshold (sqlLevel (status w))) (in_rssi inp) (rfSqlOpen (mode w))
      else rfSqlOpen (mode w))"
  by (simp add: control_def tx_exit_fields tx_enter_fields rx_logic_fields)

lemma update_no_pkts: "\<not> makePkts (mode w) \<Longrightarrow> update inp w = Inr (control inp w)"
  by (simp add: update_def make_test_pkts_def)

lemma rx_logic_trace: "\<exists>evs. trace (rx_logic inp w) = trace w @ evs"
  by (simp add: rx_logic_def audio_control_def Let_def collab_defs)

lemma rx_logic_TX:
  "opStatus (status w) = TX \<Longrightarrow> rx_logic inp w = w"
  by (simp add: rx_logic_def)

lemma led_logic_trace:
  "trace (led_logic inp w) = trace w @
     (case opStatus (status w) of
        RX \<Rightarrow> (if in_toneLed inp then [LedOn GREEN, LedOn RED]
               else if rfSqlOpen (mode w) then [LedOn GREEN, LedOff RED]
               else [LedOff GREEN, LedOff RED])
      | TX \<Rightarrow> [LedOff GREEN, LedOn RED]
      | OFF \<Rightarrow> [LedOff GREEN, LedOff RED])"
  by (simp add: led_logic_def collab_defs split: opStatus_t.splits)

lemma control_enter_tx:
  assumes "in_ptt1 inp" "in_ptt2 inp" "opStatus (status w) \<noteq> TX" "txDisable (status w) = False"
  shows "opStatus (status (control inp w)) = TX"
    and "txAudioPath (mode (control inp w)) = in_txPath inp"
    and "\<exists>evs. trace (control inp w) = trace w @ evs @
           [AudioPathRelease (rxAudioPath (mode (control inp w))), RadioDisableRtx,
            AudioPathRequest SOURCE_MIC SINK_RTX PRIO_TX, RadioEnableTx,
            LedOff GREEN, LedOn RED, SleepFor 0 30]"
proof -
  let ?r = "rx_logic inp w"
  have st: "opStatus (status ?r) \<noteq> TX" "txDisable (status ?r) = False"
    using assms by (simp_all add: rx_logic_fields)
  show "opStatus (status (control inp w)) = TX"
    using assms st by (simp add: control_def tx_exit_fields tx_enter_fields)
  show "txAudioPath (mode (control inp w)) = in_txPath inp"
    using assms st by (simp add: control_def tx_exit_fields tx_enter_fields)
  obtain evs where "trace ?r = trace w @ evs" using rx_logic_trace by blast
  then show "\<exists>evs. trace (control inp w) = trace w @ evs @
           [AudioPathRelease (rxAudioPath (mode (control inp w))), RadioDisableRtx,
            AudioPathRequest SOURCE_MIC SINK_RTX PRIO_TX, RadioEnableTx,
            LedOff GREEN, LedOn RED, SleepFor 0 30]"
    using assms st
    by (simp add: control_def led_logic_trace tx_exit_fields tx_enter_fields)
qed

lemma control_status_fields:
  "sqlLevel (status (control inp w)) = sqlLevel (status w)"
  "rxToneEn (status (control inp w)) = rxToneEn (status w)"
  "txDisable (status (control inp w)) = txDisable (status w)"
  "aprsPkts (status (control inp w)) = aprsPkts (status w)"
  "heap (control inp w) = heap w" "brk (control inp w) = brk w"
  "makePkts (mode (control inp w)) = makePkts (mode w)"
  by (simp_all add: control_def tx_exit_fields tx_enter_fields rx_logic_fields)

lemma control_opStatus:
  "opStatus (status (control inp w)) =
     (let s1 = (if opStatus (status w) = OFF \<and> enterRx (mode w) then RX else opStatus (status w));
          s2 = (if in_ptt1 inp \<and> s1 \<noteq> TX \<and> \<not> txDisable (status w) then TX else s1)
      in if \<not> in_ptt2 inp \<and> s2 = TX then OFF else s2)"
  by (simp add: control_def tx_exit_fields tx_enter_fields rx_logic_fields Let_def)

lemma control_exit_tx:
  assumes "opStatus (status w) = TX" "\<not> in_ptt2 inp"
  shows "opStatus (status (control inp w)) = OFF" "enterRx (mode (control inp w))"
    "\<not> sqlOpen (mode (control inp w))"
  using assms
  by (simp_all add: control_def tx_exit_fields tx_enter_fields rx_logic_TX)

lemma update_status_frame:
  assumes "update inp w = Inr w'"
  shows "txDisable (status w') = txDisable (status w)"
    "sqlLevel (status w') = sqlLevel (status w)"
    "rxToneEn (status w') = rxToneEn (status w)"
proof -
  from assms obtain w1 where w1: "make_test_pkts inp w = Inr w1" "w' = control inp w1"
    by (rule update_InrD)
  show "txDisable (status w') = txDisable (status w)"
    "sqlLevel (status w') = sqlLevel (status w)"
    "rxToneEn (status w') = rxToneEn (status w)"
    using make_test_pkts_frame [OF w1(1)] w1(2) by (simp_all add: control_status_fields)
qed

lemma update_opStatus:
  assumes "update inp w = Inr w'"
  shows "opStatus (status w') =
     (let s1 = (if opStatus (status w) = OFF \<and> enterRx (mode w) then RX else opStatus (status w));
          s2 = (if in_ptt1 inp \<and> s1 \<noteq> TX \<and> \<not> txDisable (status w) then TX else s1)
      in if \<not> in_ptt2 inp \<and> s2 = TX then OFF else s2)"
proof -
  from assms obtain w1 where w1: "make_test_pkts inp w = Inr w1" "w' = control inp w1"
    by (rule update_InrD)
  show ?thesis
    using make_test_pkts_frame [OF w1(1)] w1(2) by (simp add: control_opStatus)
qed

lemma update_exit_tx:
  assumes "update inp w = Inr w'" "opStatus (status w) = TX" "\<not> in_ptt2 inp"
  shows "opStatus (status w') = OFF \<and> enterRx (mode w') \<and> \<not> sqlOpen (mode w')"
proof -
  from assms(1) obtain w1 where w1: "make_test_pkts inp w = Inr w1" "w' = control inp w1"
    by (rule update_InrD)
  have "opStatus (status w1) = TX" using make_test_pkts_frame [OF w1(1)] assms(2) by simp
  from control_exit_tx [OF this assms(3)] w1(2) show ?thesis by simp
qed

lemma rx_decision: "(rfSql w \<or> toneSql inp w) = effective_open inp w"
  by (auto simp: rfSql_def toneSql_def effective_open_def)

lemma audio_control_sqlOpen:
  "sqlOpen (mode (audio_control inp rf tone w)) =
     (if sqlOpen (mode w) then rf \<or> tone else (rf \<or> tone) \<and> 0 < in_rxPath inp)"
  by (auto simp: audio_control_def Let_def)

lemma audio_control_trace:
  "trace (audio_control inp rf tone w) = trace w @
     (if \<not> sqlOpen (mode w) \<and> (rf \<or> tone) then [AudioPathRequest SOURCE_RTX SINK_SPK PRIO_RX]
      else if sqlOpen (mode w) \<and> \<not> (rf \<or> tone) then [AudioPathRelease (rxAudioPath (mode w))]
      else [])"
  by (auto simp: audio_control_def Let_def)

lemma audio_control_rxAudioPath:
  "rxAudioPath (mode (audio_control inp rf tone w)) =
     (if \<not> sqlOpen (mode w) \<and> (rf \<or> tone) then in_rxPath inp else rxAudioPath (mode w))"
  by (auto simp: audio_control_def Let_def)

lemma audio_control_paths:
  "paths (audio_control inp rf tone w) =
     (if \<not> sqlOpen (mode w) \<and> (rf \<or> tone)
      then (if 0 < in_rxPath inp then paths w @ [(in_rxPath inp, SOURCE_RTX, SINK_SPK)] else paths w)
      else if sqlOpen (mode w) \<and> \<not> (rf \<or> tone)
      then filter (\<lambda>p. fst p \<noteq> rxAudioPath (mode w)) (paths w)
      else paths w)"
  by (auto simp: audio_control_def Let_def)

lemma rx_logic_RX:
  assumes "opStatus (status w) = RX"
  shows "sqlOpen (mode (rx_logic inp w)) =
           (if sqlOpen (mode w) then decision inp w else decision inp w \<and> 0 < in_rxPath inp)"
    and "trace (rx_logic inp w) = trace w @
           (if \<not> sqlOpen (mode w) \<and> decision inp w then [AudioPathRequest SOURCE_RTX SINK_SPK PRIO_RX]
            else if sqlOpen (mode w) \<and> \<not> decision inp w then [AudioPathRelease (rxAudioPath (mode w))]
            else [])"
    and "rxAudioPath (mode (rx_logic inp w)) =
           (if \<not> sqlOpen (mode w) \<and> decision inp w then in_rxPath inp else rxAudioPath (mode w))"
    and "paths (rx_logic inp w) =
           (if \<not> sqlOpen (mode w) \<and> decision inp w
            then (if 0 < in_rxPath inp then paths w @ [(in_rxPath inp, SOURCE_RTX, SINK_SPK)] else paths w)
            else if sqlOpen (mode w) \<and> \<not> decision inp w
            then filter (\<lambda>p. fst p \<noteq> rxAudioPath (mode w)) (paths w)
            else paths w)"
    and "status (rx_logic inp w) = status w"
  using assms
  by (simp_all add: rx_logic_def Let_def audio_control_sqlOpen audio_control_trace
      audio_control_rxAudioPath audio_control_paths audio_control_fields rx_decision
      effective_open_def decision_def)

lemma rx_logic_not_RX:
  assumes "opStatus (status w) \<noteq> RX"
  shows "sqlOpen (mode (rx_logic inp w)) = sqlOpen (mode w)"
    and "rxAudioPath (mode (rx_logic inp w)) = rxAudioPath (mode w)"
    and "paths (rx_logic inp w) = paths w"
  using assms by (simp_all add: rx_logic_def Let_def collab_defs)

lemma control_trace_after_rx: "\<exists>evs. trace (control inp w) = trace (rx_logic inp w) @ evs"
  by (simp add: control_def led_logic_trace tx_exit_fields tx_enter_fields)

lemma control_sqlOpen:
  "sqlOpen (mode (control inp w)) =
     (if \<not> in_ptt2 inp \<and> opStatus (status (tx_enter inp (rx_logic inp w))) = TX then False
      else sqlOpen (mode (rx_logic inp w)))"
  by (simp add: control_def tx_exit_fields tx_enter_fields)

lemma control_rxAudioPath:
  "rxAudioPath (mode (control inp w)) = rxAudioPath (mode (rx_logic inp w))"
  by (simp add: control_def tx_exit_fields tx_enter_fields)

lemma control_effective_open:
  "opStatus (status w) = RX \<Longrightarrow> effective_open inp (control inp w) = decision inp w"
  by (simp add: effective_open_def decision_def control_rfSqlOpen control_status_fields)

lemma control_gating:
  assumes "opStatus (status w) = RX"
  shows "decision inp w \<and> \<not> sqlOpen (mode w) \<longrightarrow>
           (\<exists>evs. trace (control inp w) = trace w @ AudioPathRequest SOURCE_RTX SINK_SPK PRIO_RX # evs)
           \<and> rxAudioPath (mode (control inp w)) = in_rxPath inp
           \<and> (opStatus (status (control inp w)) = RX
                \<longrightarrow> sqlOpen (mode (control inp w)) = (0 < in_rxPath inp))"
    and "\<not> decision inp w \<and> sqlOpen (mode w) \<longrightarrow>
           (\<exists>evs. trace (control inp w) = trace w @ AudioPathRelease (rxAudioPath (mode w)) # evs)
           \<and> \<not> sqlOpen (mode (control inp w))"
proof -
  obtain evs where e: "trace (control inp w) = trace (rx_logic inp w) @ evs"
    using control_trace_after_rx by blast
  have st: "opStatus (status (control inp w)) = RX \<Longrightarrow>
      opStatus (status (tx_enter inp (rx_logic inp w))) \<noteq> TX"
    using assms by (auto simp: control_opStatus tx_enter_fields rx_logic_RX(5) Let_def split: if_splits)
  show "decision inp w \<and> \<not> sqlOpen (mode w) \<longrightarrow>
           (\<exists>evs. trace (control inp w) = trace w @ AudioPathRequest SOURCE_RTX SINK_SPK PRIO_RX # evs)
           \<and> rxAudioPath (mode (control inp w)) = in_rxPath inp
           \<and> (opStatus (status (control inp w)) = RX
                \<longrightarrow> sqlOpen (mode (control inp w)) = (0 < in_rxPath inp))"
    using e st by (simp add: rx_logic_RX [OF assms] control_rxAudioPath control_sqlOpen)
  show "\<not> decision inp w \<and> sqlOpen (mode w) \<longrightarrow>
           (\<exists>evs. trace (control inp w) = trace w @ AudioPathRelease (rxAudioPath (mode w)) # evs)
           \<and> \<not> sqlOpen (mode (control inp w))"
    using e by (simp add: rx_logic_RX [OF assms] control_sqlOpen)
qed

lemma control_paths:
  "paths (control inp w) = paths (tx_exit inp (tx_enter inp (rx_logic inp w)))"
  by (simp add: control_def)

lemma control_TX:
  assumes "opStatus (status w) = TX"
  shows "in_ptt2 inp \<Longrightarrow> opStatus (status (control inp w)) = TX"
    and "in_ptt2 inp \<Longrightarrow> sqlOpen (mode (control inp w)) = sqlOpen (mode w)"
  using assms
  by (simp_all add: control_def tx_exit_fields tx_enter_fields rx_logic_TX)

lemma control_preempt_open:
  assumes "opStatus (status w) = RX" "sqlOpen (mode w)" "decision inp w"
    and "in_ptt1 inp" "in_ptt2 inp" "\<not> txDisable (status w)"
  shows "opStatus (status (control inp w)) = TX"
    and "sqlOpen (mode (control inp w))"
    and "paths (control inp w) =
           filter (\<lambda>p. fst p \<noteq> rxAudioPath (mode w)) (paths w)
           @ (if 0 < in_txPath inp then [(in_txPath inp, SOURCE_MIC, SINK_RTX)] else [])"
  using assms
  by (simp_all add: control_opStatus control_sqlOpen control_paths tx_exit_fields
      tx_enter_fields rx_logic_RX)

section \<open>Transitions\<close>

text \<open>
  Claim C1. In every update cycle in which push-to-talk is asserted (at both reads of
  the cycle), the state at the start is not TX and transmit is not disabled, the
  controller releases the RX audio path handle, deactivates the RF path, requests the
  TX audio path (microphone to RF, TX priority), activates RF transmit, in this order,
  and ends the cycle in state TX. Nothing is assumed about the squelch level, the signal
  strength or the squelch flags.
\<close>

theorem ptt_preempts_rx:
  assumes "update inp w = Inr w'"
    and "in_ptt1 inp" "in_ptt2 inp"
    and "opStatus (status w) \<noteq> TX"
    and "txDisable (status w) = False"
  shows "opStatus (status w') = TX
       \<and> txAudioPath (mode w') = in_txPath inp
       \<and> (\<exists>evs. trace w' = trace w @ evs @
            [AudioPathRelease (rxAudioPath (mode w')), RadioDisableRtx,
             AudioPathRequest SOURCE_MIC SINK_RTX PRIO_TX, RadioEnableTx,
             LedOff GREEN, LedOn RED, SleepFor 0 30])"
proof -
  from assms(1) obtain w1 where w1: "make_test_pkts inp w = Inr w1" "w' = control inp w1"
    by (rule update_InrD)
  have h: "opStatus (status w1) \<noteq> TX" "txDisable (status w1) = False" "trace w1 = trace w"
    using assms(4,5) make_test_pkts_frame [OF w1(1)] by simp_all
  show ?thesis
    using control_enter_tx [OF assms(2,3) h(1,2)] h(3) w1(2) by simp
qed

theorem ptt_preempts_rx_witness:
  "update inp_ptt world_rx = Inr (control inp_ptt world_rx)
   \<and> in_ptt1 inp_ptt \<and> in_ptt2 inp_ptt \<and> opStatus (status world_rx) = RX
   \<and> txDisable (status world_rx) = False
   \<and> opStatus (status (control inp_ptt world_rx)) = TX
   \<and> txAudioPath (mode (control inp_ptt world_rx)) = 2"
proof -
  have u: "update inp_ptt world_rx = Inr (control inp_ptt world_rx)"
    by (rule update_no_pkts) (simp add: ex_defs)
  have p: "in_ptt1 inp_ptt" "in_ptt2 inp_ptt" "opStatus (status world_rx) \<noteq> TX"
    "txDisable (status world_rx) = False"
    by (simp_all add: ex_defs)
  show ?thesis
    using ptt_preempts_rx [OF u p] u p by (simp add: ex_defs)
qed

text \<open>
  Claim C3. As stated (without "transmit not disabled") the claim fails: with transmit
  disabled, the cycle with push-to-talk asserted leaves the state RX. Below, the states
  and inputs of that run.
\<close>

theorem off_rx_tx_off_cycle_counterexample:
  "opStatus (status world_txoff) = OFF \<and> enterRx (mode world_txoff)
   \<and> \<not> in_ptt1 inp_idle \<and> \<not> in_ptt2 inp_idle
   \<and> update inp_idle world_txoff = Inr (control inp_idle world_txoff)
   \<and> opStatus (status (control inp_idle world_txoff)) = RX
   \<and> in_ptt1 inp_ptt \<and> in_ptt2 inp_ptt
   \<and> update inp_ptt (control inp_idle world_txoff)
       = Inr (control inp_ptt (control inp_idle world_txoff))
   \<and> opStatus (status (control inp_ptt (control inp_idle world_txoff))) = RX
   \<and> opStatus (status (control inp_ptt (control inp_idle world_txoff))) \<noteq> TX"
proof -
  let ?w1 = "control inp_idle world_txoff"
  let ?w2 = "control inp_ptt ?w1"
  have m0: "\<not> makePkts (mode world_txoff)" by (simp add: ex_defs ex_defs2)
  then have m1: "\<not> makePkts (mode ?w1)" by (simp add: control_status_fields)
  have u1: "update inp_idle world_txoff = Inr ?w1" using m0 by (rule update_no_pkts)
  have u2: "update inp_ptt ?w1 = Inr ?w2" using m1 by (rule update_no_pkts)
  have s1: "opStatus (status ?w1) = RX"
    by (simp add: control_opStatus ex_defs ex_defs2)
  have d1: "txDisable (status ?w1)"
    by (simp add: control_status_fields ex_defs ex_defs2)
  have s2: "opStatus (status ?w2) = RX"
    using s1 d1 by (simp add: control_opStatus ex_defs)
  show ?thesis using u1 u2 s1 s2 by (simp add: ex_defs ex_defs2)
qed

text \<open>
  Claim C3. Amended. Starting in state OFF with the "enter RX" flag set and transmit
  not disabled: a cycle with push-to-talk unasserted leaves the state RX; a following cycle
  with push-to-talk asserted leaves the state TX; a following cycle with push-to-talk
  released leaves the state OFF with the "enter RX" flag set and the squelch-open flag
  false.
\<close>

theorem off_rx_tx_off_cycle:
  assumes start: "opStatus (status w0) = OFF" "enterRx (mode w0)"
    and tx_enabled: "txDisable (status w0) = False"
    and c1: "\<not> in_ptt1 i1" "\<not> in_ptt2 i1" "update i1 w0 = Inr w1"
    and c2: "in_ptt1 i2" "in_ptt2 i2" "update i2 w1 = Inr w2"
    and c3: "\<not> in_ptt1 i3" "\<not> in_ptt2 i3" "update i3 w2 = Inr w3"
  shows "opStatus (status w1) = RX \<and> opStatus (status w2) = TX
       \<and> opStatus (status w3) = OFF \<and> enterRx (mode w3) \<and> rxSquelchOpen w3 = False"
proof -
  have s1: "opStatus (status w1) = RX"
    using update_opStatus [OF c1(3)] start c1(1,2) by simp
  have d1: "txDisable (status w1) = False"
    using update_status_frame(1) [OF c1(3)] tx_enabled by simp
  have s2: "opStatus (status w2) = TX"
    using update_opStatus [OF c2(3)] s1 d1 c2(1,2) by simp
  from update_exit_tx [OF c3(3) s2 c3(2)] s1 s2 show ?thesis
    by (simp add: rxSquelchOpen_def)
qed

theorem off_rx_tx_off_cycle_witness:
  "opStatus (status world0) = OFF \<and> enterRx (mode world0) \<and> txDisable (status world0) = False
   \<and> update inp_idle world0 = Inr (control inp_idle world0)
   \<and> update inp_ptt (control inp_idle world0) = Inr (control inp_ptt (control inp_idle world0))
   \<and> update inp_idle (control inp_ptt (control inp_idle world0))
       = Inr (control inp_idle (control inp_ptt (control inp_idle world0)))
   \<and> opStatus (status (control inp_idle world0)) = RX
   \<and> opStatus (status (control inp_ptt (control inp_idle world0))) = TX
   \<and> opStatus (status (control inp_idle (control inp_ptt (control inp_idle world0)))) = OFF
   \<and> enterRx (mode (control inp_idle (control inp_ptt (control inp_idle world0))))
   \<and> rxSquelchOpen (control inp_idle (control inp_ptt (control inp_idle world0))) = False"
proof -
  let ?w1 = "control inp_idle world0"
  let ?w2 = "control inp_ptt ?w1"
  let ?w3 = "control inp_idle ?w2"
  have m0: "\<not> makePkts (mode world0)" by (simp add: ex_defs)
  then have m1: "\<not> makePkts (mode ?w1)" by (simp add: control_status_fields)
  then have m2: "\<not> makePkts (mode ?w2)" by (simp add: control_status_fields)
  have u1: "update inp_idle world0 = Inr ?w1" using m0 by (rule update_no_pkts)
  have u2: "update inp_ptt ?w1 = Inr ?w2" using m1 by (rule update_no_pkts)
  have u3: "update inp_idle ?w2 = Inr ?w3" using m2 by (rule update_no_pkts)
  have s: "opStatus (status world0) = OFF" "enterRx (mode world0)"
    "txDisable (status world0) = False" by (simp_all add: ex_defs)
  have i: "\<not> in_ptt1 inp_idle" "\<not> in_ptt2 inp_idle" "in_ptt1 inp_ptt" "in_ptt2 inp_ptt"
    by (simp_all add: ex_defs)
  from off_rx_tx_off_cycle [OF s i(1,2) u1 i(3,4) u2 i(1,2) u3] s u1 u2 u3
  show ?thesis by simp
qed

text \<open>
  Claim C10. The Enter-TX block (lines 174-183) leaves the squelch-open flag as it
  is. In a cycle that starts in RX with the flag set and the effective squelch open, and in
  which push-to-talk pre-empts RX, the state becomes TX, \<open>rxSquelchOpen\<close> still answers
  true, and every path held under the RX handle has been released (so the RX path is not
  held if it was held under that handle). While the state is TX and push-to-talk stays
  asserted the flag keeps its value; the cycle in which push-to-talk is released leaves
  the state OFF and the flag false.
\<close>

theorem tx_keeps_squelch_flag:
  assumes "update inp w = Inr w'"
  shows "rxSquelchOpen (tx_enter inp w) = rxSquelchOpen w
       \<and> (opStatus (status w) = RX \<and> sqlOpen (mode w) \<and> effective_open inp w'
            \<and> in_ptt1 inp \<and> in_ptt2 inp \<and> \<not> txDisable (status w) \<longrightarrow>
              opStatus (status w') = TX \<and> rxSquelchOpen w'
              \<and> paths w' = filter (\<lambda>p. fst p \<noteq> rxAudioPath (mode w)) (paths w)
                   @ (if 0 < in_txPath inp then [(in_txPath inp, SOURCE_MIC, SINK_RTX)] else [])
              \<and> (paths w = [(rxAudioPath (mode w), SOURCE_RTX, SINK_SPK)] \<longrightarrow> \<not> rxPathOpen w'))
       \<and> (opStatus (status w) = TX \<and> in_ptt2 inp \<longrightarrow>
              opStatus (status w') = TX \<and> rxSquelchOpen w' = rxSquelchOpen w)
       \<and> (opStatus (status w) = TX \<and> \<not> in_ptt2 inp \<longrightarrow>
              opStatus (status w') = OFF \<and> \<not> rxSquelchOpen w')"
proof -
  from assms(1) obtain w1 where w1: "make_test_pkts inp w = Inr w1" "w' = control inp w1"
    by (rule update_InrD)
  note f = make_test_pkts_frame [OF w1(1)]
  have a: "rxSquelchOpen (tx_enter inp w) = rxSquelchOpen w"
    by (simp add: rxSquelchOpen_def tx_enter_fields)
  have b: "opStatus (status w') = TX \<and> rxSquelchOpen w'
      \<and> paths w' = filter (\<lambda>p. fst p \<noteq> rxAudioPath (mode w)) (paths w)
           @ (if 0 < in_txPath inp then [(in_txPath inp, SOURCE_MIC, SINK_RTX)] else [])
      \<and> (paths w = [(rxAudioPath (mode w), SOURCE_RTX, SINK_SPK)] \<longrightarrow> \<not> rxPathOpen w')"
    if h: "opStatus (status w) = RX" "sqlOpen (mode w)" "effective_open inp w'"
      "in_ptt1 inp" "in_ptt2 inp" "\<not> txDisable (status w)"
  proof -
    have rx: "opStatus (status w1) = RX" using f h(1) by simp
    have d: "decision inp w1" using control_effective_open [OF rx] h(3) w1(2) by simp
    have o: "sqlOpen (mode w1)" "\<not> txDisable (status w1)" using f h by simp_all
    note c = control_preempt_open [OF rx o(1) d h(4,5) o(2)]
    have p: "paths w' = filter (\<lambda>p. fst p \<noteq> rxAudioPath (mode w)) (paths w)
           @ (if 0 < in_txPath inp then [(in_txPath inp, SOURCE_MIC, SINK_RTX)] else [])"
      using c(3) f w1(2) by simp
    show ?thesis
      using c(1,2) p w1(2) by (simp add: rxSquelchOpen_def rxPathOpen_def)
  qed
  have c: "opStatus (status w') = TX \<and> rxSquelchOpen w' = rxSquelchOpen w"
    if h: "opStatus (status w) = TX" "in_ptt2 inp"
  proof -
    have tx: "opStatus (status w1) = TX" using f h(1) by simp
    show ?thesis
      using control_TX [OF tx h(2)] f w1(2) by (simp add: rxSquelchOpen_def)
  qed
  have d: "opStatus (status w') = OFF \<and> \<not> rxSquelchOpen w'"
    if h: "opStatus (status w) = TX" "\<not> in_ptt2 inp"
    using update_exit_tx [OF assms h] by (simp add: rxSquelchOpen_def)
  show ?thesis using a b c d by blast
qed

theorem tx_keeps_squelch_flag_witness:
  "update inp_ptt_strong world_open = Inr (control inp_ptt_strong world_open)
   \<and> opStatus (status world_open) = RX \<and> sqlOpen (mode world_open)
   \<and> effective_open inp_ptt_strong (control inp_ptt_strong world_open)
   \<and> in_ptt1 inp_ptt_strong \<and> in_ptt2 inp_ptt_strong \<and> \<not> txDisable (status world_open)
   \<and> paths world_open = [(rxAudioPath (mode world_open), SOURCE_RTX, SINK_SPK)]
   \<and> opStatus (status (control inp_ptt_strong world_open)) = TX
   \<and> rxSquelchOpen (control inp_ptt_strong world_open)
   \<and> \<not> rxPathOpen (control inp_ptt_strong world_open)
   \<and> update inp_ptt_strong (control inp_ptt_strong world_open)
       = Inr (control inp_ptt_strong (control inp_ptt_strong world_open))
   \<and> rxSquelchOpen (control inp_ptt_strong (control inp_ptt_strong world_open))
   \<and> update inp_idle (control inp_ptt_strong world_open)
       = Inr (control inp_idle (control inp_ptt_strong world_open))
   \<and> \<not> in_ptt2 inp_idle
   \<and> opStatus (status (control inp_idle (control inp_ptt_strong world_open))) = OFF
   \<and> \<not> rxSquelchOpen (control inp_idle (control inp_ptt_strong world_open))"
proof -
  let ?w1 = "control inp_ptt_strong world_open"
  have m0: "\<not> makePkts (mode world_open)" by (simp add: ex_defs ex_defs3)
  then have m1: "\<not> makePkts (mode ?w1)" by (simp add: control_status_fields)
  have u1: "update inp_ptt_strong world_open = Inr ?w1" using m0 by (rule update_no_pkts)
  have u2: "update inp_ptt_strong ?w1 = Inr (control inp_ptt_strong ?w1)" using m1 by (rule update_no_pkts)
  have u3: "update inp_idle ?w1 = Inr (control inp_idle ?w1)" using m1 by (rule update_no_pkts)
  have p: "opStatus (status world_open) = RX" "sqlOpen (mode world_open)"
    "in_ptt1 inp_ptt_strong" "in_ptt2 inp_ptt_strong" "\<not> txDisable (status world_open)"
    "paths world_open = [(rxAudioPath (mode world_open), SOURCE_RTX, SINK_SPK)]"
    "\<not> in_ptt2 inp_idle"
    by (simp_all add: ex_defs ex_defs3)
  have e: "effective_open inp_ptt_strong ?w1"
    by (simp add: control_effective_open [OF p(1)] decision_def rf_squelch_def)
      (simp add: ex_defs ex_defs3 squelch_threshold_eq)
  from tx_keeps_squelch_flag [OF u1] p e
  have s1: "opStatus (status ?w1) = TX" "rxSquelchOpen ?w1" "\<not> rxPathOpen ?w1"
    by simp_all
  from tx_keeps_squelch_flag [OF u2] s1 p
  have s2: "rxSquelchOpen (control inp_ptt_strong ?w1)" by simp
  from tx_keeps_squelch_flag [OF u3] s1 p
  have s3: "opStatus (status (control inp_idle ?w1)) = OFF"
    "\<not> rxSquelchOpen (control inp_idle ?w1)" by simp_all
  show ?thesis using u1 u2 u3 p e s1 s2 s3 by simp
qed

section \<open>Squelch\<close>

text \<open>
  Claim C4. In an update cycle that starts in state RX, the RF-squelch-open flag goes
  from false to true only if the signal strength is above threshold + 1, goes from true
  to false only if it is below threshold - 1, and keeps its value for a strength strictly
  between threshold - 1 and threshold + 1. The last conjunct gives the new flag exactly.
\<close>

theorem rf_squelch_hysteresis:
  assumes "update inp w = Inr w'"
    and "opStatus (status w) = RX"
  shows "(\<not> rfSqlOpen (mode w) \<and> rfSqlOpen (mode w')
            \<longrightarrow> in_rssi inp > squelch_threshold (sqlLevel (status w)) + 1)
       \<and> (rfSqlOpen (mode w) \<and> \<not> rfSqlOpen (mode w')
            \<longrightarrow> in_rssi inp < squelch_threshold (sqlLevel (status w)) - 1)
       \<and> (squelch_threshold (sqlLevel (status w)) - 1 < in_rssi inp
            \<and> in_rssi inp < squelch_threshold (sqlLevel (status w)) + 1
            \<longrightarrow> rfSqlOpen (mode w') = rfSqlOpen (mode w))
       \<and> rfSqlOpen (mode w') =
           (if rfSqlOpen (mode w) then \<not> in_rssi inp < squelch_threshold (sqlLevel (status w)) - 1
            else in_rssi inp > squelch_threshold (sqlLevel (status w)) + 1)"
proof -
  from assms(1) obtain w1 where w1: "make_test_pkts inp w = Inr w1" "w' = control inp w1"
    by (rule update_InrD)
  have "rfSqlOpen (mode w') =
      rf_squelch (squelch_threshold (sqlLevel (status w))) (in_rssi inp) (rfSqlOpen (mode w))"
    using assms(2) make_test_pkts_frame [OF w1(1)] w1(2) by (simp add: control_rfSqlOpen)
  then show ?thesis
    by (auto simp: rf_squelch_def Let_def split: if_splits)
qed

theorem rf_squelch_hysteresis_witness:
  "update inp_strong world_rx = Inr (control inp_strong world_rx)
   \<and> opStatus (status world_rx) = RX
   \<and> squelch_threshold (sqlLevel (status world_rx)) = -110
   \<and> rfSqlOpen (mode world_rx) = False
   \<and> rfSqlOpen (mode (control inp_strong world_rx)) = True
   \<and> in_rssi inp_strong > squelch_threshold (sqlLevel (status world_rx)) + 1
   \<and> update inp_idle world_open = Inr (control inp_idle world_open)
   \<and> opStatus (status world_open) = RX
   \<and> rfSqlOpen (mode world_open) = True
   \<and> rfSqlOpen (mode (control inp_idle world_open)) = False
   \<and> in_rssi inp_idle < squelch_threshold (sqlLevel (status world_open)) - 1
   \<and> update inp_edge world_open = Inr (control inp_edge world_open)
   \<and> squelch_threshold (sqlLevel (status world_open)) - 1 < in_rssi inp_edge
   \<and> in_rssi inp_edge < squelch_threshold (sqlLevel (status world_open)) + 1
   \<and> rfSqlOpen (mode (control inp_edge world_open)) = rfSqlOpen (mode world_open)"
proof -
  have u1: "update inp_strong world_rx = Inr (control inp_strong world_rx)"
    by (rule update_no_pkts) (simp add: ex_defs)
  have u2: "update inp_idle world_open = Inr (control inp_idle world_open)"
    by (rule update_no_pkts) (simp add: ex_defs ex_defs3)
  have u3: "update inp_edge world_open = Inr (control inp_edge world_open)"
    by (rule update_no_pkts) (simp add: ex_defs ex_defs3)
  have p: "opStatus (status world_rx) = RX" "opStatus (status world_open) = RX"
    by (simp_all add: ex_defs ex_defs3)
  have t: "squelch_threshold (sqlLevel (status world_rx)) = -110"
    "squelch_threshold (sqlLevel (status world_open)) = -110"
    by (simp_all add: ex_defs ex_defs3 squelch_threshold_eq)
  have f: "rfSqlOpen (mode world_rx) = False" "rfSqlOpen (mode world_open) = True"
    "in_rssi inp_strong = -100" "in_rssi inp_idle = -120" "in_rssi inp_edge = -110"
    by (simp_all add: ex_defs ex_defs2 ex_defs3)
  show ?thesis
    using rf_squelch_hysteresis [OF u1 p(1)] rf_squelch_hysteresis [OF u2 p(2)] rf_squelch_hysteresis [OF u3 p(2)] u1 u2 u3 p t f
    by simp
qed

text \<open>
  Claim C6. In a cycle that starts in state RX: the RF-squelch-open flag is updated
  by the hysteresis rule whether tone squelch is enabled or not; the decision of the source
  (\<open>rfSql\<close> or \<open>toneSql\<close>) is the effective open decision of the spec; when that decision is
  open and the squelch-open flag (the controller's record of holding the RX path) is false,
  the first call of the cycle is the request of the RX audio path, the handle is stored, and
  if the cycle ends in RX the flag is set exactly when the result is positive; when the
  decision is closed and the flag is set, the first call of the cycle is the release of the
  RX handle and the flag is false at the end of the cycle.
\<close>

theorem squelch_gates_rx_audio:
  assumes "update inp w = Inr w'"
    and "opStatus (status w) = RX"
  shows "rfSqlOpen (mode w') =
           rf_squelch (squelch_threshold (sqlLevel (status w))) (in_rssi inp) (rfSqlOpen (mode w))
       \<and> (rfSql w' \<or> toneSql inp w') = effective_open inp w'
       \<and> (effective_open inp w' \<and> \<not> sqlOpen (mode w) \<longrightarrow>
            (\<exists>evs. trace w' = trace w @ AudioPathRequest SOURCE_RTX SINK_SPK PRIO_RX # evs)
            \<and> rxAudioPath (mode w') = in_rxPath inp
            \<and> (opStatus (status w') = RX \<longrightarrow> sqlOpen (mode w') = (0 < in_rxPath inp)))
       \<and> (\<not> effective_open inp w' \<and> sqlOpen (mode w) \<longrightarrow>
            (\<exists>evs. trace w' = trace w @ AudioPathRelease (rxAudioPath (mode w)) # evs)
            \<and> \<not> sqlOpen (mode w'))"
proof -
  from assms(1) obtain w1 where w1: "make_test_pkts inp w = Inr w1" "w' = control inp w1"
    by (rule update_InrD)
  note f = make_test_pkts_frame [OF w1(1)]
  have rx: "opStatus (status w1) = RX" using f assms(2) by simp
  have d: "effective_open inp w' = decision inp w1"
    using control_effective_open [OF rx] w1(2) by simp
  have r: "rfSqlOpen (mode w') =
      rf_squelch (squelch_threshold (sqlLevel (status w))) (in_rssi inp) (rfSqlOpen (mode w))"
    using f rx w1(2) by (simp add: control_rfSqlOpen)
  show ?thesis
    using r control_gating [OF rx, of inp] d f w1(2) by (simp add: rx_decision)
qed

theorem squelch_gates_rx_audio_witness:
  "update inp_strong world_rx = Inr (control inp_strong world_rx)
   \<and> opStatus (status world_rx) = RX
   \<and> effective_open inp_strong (control inp_strong world_rx)
   \<and> sqlOpen (mode world_rx) = False
   \<and> opStatus (status (control inp_strong world_rx)) = RX
   \<and> rxAudioPath (mode (control inp_strong world_rx)) = 1
   \<and> sqlOpen (mode (control inp_strong world_rx))
   \<and> update inp_idle world_open = Inr (control inp_idle world_open)
   \<and> opStatus (status world_open) = RX
   \<and> effective_open inp_idle (control inp_idle world_open) = False
   \<and> sqlOpen (mode world_open)
   \<and> sqlOpen (mode (control inp_idle world_open)) = False"
proof -
  have u1: "update inp_strong world_rx = Inr (control inp_strong world_rx)"
    by (rule update_no_pkts) (simp add: ex_defs)
  have u2: "update inp_idle world_open = Inr (control inp_idle world_open)"
    by (rule update_no_pkts) (simp add: ex_defs ex_defs3)
  have p: "opStatus (status world_rx) = RX" "opStatus (status world_open) = RX"
    by (simp_all add: ex_defs ex_defs3)
  have e1: "effective_open inp_strong (control inp_strong world_rx)"
    by (simp add: control_effective_open [OF p(1)] decision_def rf_squelch_def)
      (simp add: ex_defs ex_defs2 squelch_threshold_eq)
  have e2: "effective_open inp_idle (control inp_idle world_open) = False"
    by (simp add: control_effective_open [OF p(2)] decision_def rf_squelch_def)
      (simp add: ex_defs ex_defs3 squelch_threshold_eq)
  have s: "opStatus (status (control inp_strong world_rx)) = RX"
    by (simp add: control_opStatus ex_defs ex_defs2)
  have c: "sqlOpen (mode world_rx) = False" "sqlOpen (mode world_open)"
    by (simp_all add: ex_defs ex_defs3)
  show ?thesis
    using squelch_gates_rx_audio [OF u1 p(1)] squelch_gates_rx_audio [OF u2 p(2)]
      u1 u2 p e1 e2 s c
    by (simp add: ex_defs ex_defs2)
qed

section \<open>A TX audio request that fails\<close>

text \<open>
  The result of the RX request is tested (line 157); the result of the TX request (line
  179) is stored and never tested. The state below is RX and the request returns -1.
\<close>

lemma control_tx_fail_1:
  "opStatus (status (control inp_tx_fail world_rx)) = TX"
  "paths (control inp_tx_fail world_rx) = []"
  "trace (control inp_tx_fail world_rx) =
     [AudioPathRelease 0, RadioDisableRtx, AudioPathRequest SOURCE_MIC SINK_RTX PRIO_TX,
      RadioEnableTx, LedOff GREEN, LedOn RED, SleepFor 0 30]"
  "makePkts (mode (control inp_tx_fail world_rx)) = False"
  by (simp_all add: control_def led_logic_trace tx_exit_fields tx_enter_fields rx_logic_RX
      rx_logic_fields decision_def rf_squelch_def squelch_threshold_eq ex_defs ex_defs3)

text \<open>
  Claim C2. At the end of a cycle in which push-to-talk is asserted in state RX and
  the TX audio path request returns -1, the state is TX and no TX audio path is held.
\<close>

theorem tx_state_without_tx_path:
  "update inp_tx_fail world_rx = Inr (control inp_tx_fail world_rx)
   \<and> in_txPath inp_tx_fail = -1
   \<and> opStatus (status (control inp_tx_fail world_rx)) = TX
   \<and> txPathOpen (control inp_tx_fail world_rx) = False"
proof -
  have u: "update inp_tx_fail world_rx = Inr (control inp_tx_fail world_rx)"
    by (rule update_no_pkts) (simp add: ex_defs)
  show ?thesis
    using u control_tx_fail_1 by (simp add: txPathOpen_def ex_defs ex_defs3)
qed

text \<open>
  Claim C7. In the same cycle the controller goes on after the failed TX request:
  it activates RF transmit and sets the state to TX. In the next cycle, push-to-talk still
  asserted, it makes no audio path request at all: the only calls are those of the led
  logic and the sleep.
\<close>

theorem failed_tx_request_not_retried:
  "update inp_tx_fail world_rx = Inr (control inp_tx_fail world_rx)
   \<and> in_txPath inp_tx_fail = -1
   \<and> trace (control inp_tx_fail world_rx) =
       [AudioPathRelease 0, RadioDisableRtx, AudioPathRequest SOURCE_MIC SINK_RTX PRIO_TX,
        RadioEnableTx, LedOff GREEN, LedOn RED, SleepFor 0 30]
   \<and> opStatus (status (control inp_tx_fail world_rx)) = TX
   \<and> update inp_tx_fail (control inp_tx_fail world_rx)
       = Inr (control inp_tx_fail (control inp_tx_fail world_rx))
   \<and> trace (control inp_tx_fail (control inp_tx_fail world_rx)) =
       trace (control inp_tx_fail world_rx) @ [LedOff GREEN, LedOn RED, SleepFor 0 30]
   \<and> opStatus (status (control inp_tx_fail (control inp_tx_fail world_rx))) = TX
   \<and> paths (control inp_tx_fail (control inp_tx_fail world_rx)) = []"
proof -
  let ?w1 = "control inp_tx_fail world_rx"
  have u1: "update inp_tx_fail world_rx = Inr ?w1"
    by (rule update_no_pkts) (simp add: ex_defs)
  have u2: "update inp_tx_fail ?w1 = Inr (control inp_tx_fail ?w1)"
    by (rule update_no_pkts) (simp add: control_tx_fail_1)
  have i: "in_txPath inp_tx_fail = -1" "in_ptt2 inp_tx_fail" by (simp_all add: ex_defs ex_defs3)
  have s2: "opStatus (status (control inp_tx_fail ?w1)) = TX"
    "paths (control inp_tx_fail ?w1) = []"
    "trace (control inp_tx_fail ?w1) = trace ?w1 @ [LedOff GREEN, LedOn RED, SleepFor 0 30]"
    using i(2) control_tx_fail_1(1,2)
    by (simp_all add: control_def led_logic_trace tx_exit_fields tx_enter_fields
        rx_logic_TX)
  show ?thesis using u1 u2 i(1) s2 control_tx_fail_1 by simp
qed

text \<open>
  What does hold of the audio paths: at the end of every block of every cycle at most one
  of the two paths is held, and the TX path is held only in state TX.
\<close>

lemma path_inv_rx_logic: "path_inv w \<Longrightarrow> path_inv (rx_logic inp w)"
  by (cases "opStatus (status w) = RX")
    (auto simp: path_inv_def rx_logic_RX rx_logic_not_RX rx_logic_fields split: if_splits)

lemma path_inv_tx_enter: "path_inv w \<Longrightarrow> path_inv (tx_enter inp w)"
  by (auto simp: path_inv_def tx_enter_fields split: if_splits)

lemma path_inv_tx_exit: "path_inv w \<Longrightarrow> path_inv (tx_exit inp w)"
  by (auto simp: path_inv_def tx_exit_fields split: if_splits)

lemma path_inv_control: "path_inv w \<Longrightarrow> path_inv (control inp w)"
proof -
  assume "path_inv w"
  then have "path_inv (tx_exit inp (tx_enter inp (rx_logic inp w)))"
    by (intro path_inv_tx_exit path_inv_tx_enter path_inv_rx_logic)
  then show ?thesis by (simp add: path_inv_def control_def)
qed

lemma path_inv_update: "path_inv w \<Longrightarrow> update inp w = Inr w' \<Longrightarrow> path_inv w'"
proof -
  assume i: "path_inv w" and u: "update inp w = Inr w'"
  from u obtain w1 where w1: "make_test_pkts inp w = Inr w1" "w' = control inp w1"
    by (rule update_InrD)
  have "path_inv w1" using i make_test_pkts_frame [OF w1(1)] by (simp add: path_inv_def)
  then show ?thesis using w1(2) by (simp add: path_inv_control)
qed

lemma path_inv_run: "path_inv w \<Longrightarrow> run w inps = Inr w' \<Longrightarrow> path_inv w'"
  by (induction inps arbitrary: w) (auto split: sum.splits dest: path_inv_update)

lemma path_inv_exclusive:
  "path_inv w \<Longrightarrow> \<not> (rxPathOpen w \<and> txPathOpen w) \<and> (txPathOpen w \<longrightarrow> opStatus (status w) = TX)"
  by (auto simp: path_inv_def rxPathOpen_def txPathOpen_def)

section \<open>The packet queue\<close>

lemma free_loop_live:
  "h a = Some p \<Longrightarrow> free_loop h (Some a) = Inl (InvalidRead a)"
  by (simp add: aprsPktFree_def load_next_def)

lemma free_loop_dead:
  "h a = None \<Longrightarrow> free_loop h (Some a) = Inl (InvalidFree a)"
  by (simp add: aprsPktFree_def)

lemma disable_nonempty:
  "aprsPkts (status w) = Some a \<Longrightarrow> heap w a = Some p \<Longrightarrow> disable w = Inl (InvalidRead a)"
  by (simp add: disable_def Let_def aprsPktFree_def load_next_def)

lemma disable_returns_iff:
  "(\<exists>w'. disable w = Inr w') = (aprsPkts (status w) = None)"
proof (cases "aprsPkts (status w)")
  case None
  then show ?thesis by (simp add: disable_def Let_def)
next
  case (Some a)
  then show ?thesis
    by (cases "heap w a") (simp_all add: disable_def Let_def aprsPktFree_def load_next_def)
qed

lemma disable_keeps_status:
  "disable w = Inr w' \<Longrightarrow> status w' = status w"
  by (auto simp: disable_def Let_def collab_defs split: sum.splits if_splits)

text \<open>
  Claim C8. With one packet in the queue, \<open>disable\<close> releases the packet and then
  reads its \<open>next\<close> field: an access to a released block. The lemmas above show the same
  for every queue whose head is allocated, that \<open>disable\<close> completes only on an empty
  queue, and that it never writes the shared status record, whose head is therefore never
  cleared.
\<close>

theorem disable_reads_released_packet:
  "aprsPkts (status world_q1) = Some 1
   \<and> heap world_q1 1 = Some (test_pkt 0 1000)
   \<and> pkt_next (test_pkt 0 1000) = None
   \<and> aprsPktFree (heap world_q1) 1 = Inr Map.empty
   \<and> load_next Map.empty 1 = Inl (InvalidRead 1)
   \<and> disable world_q1 = Inl (InvalidRead 1)"
  by (simp add: disable_def Let_def aprsPktFree_def load_next_def test_pkt_def
      ex_defs ex_defs3)

lemma aprsPktsInsert_payload:
  assumes "aprsPktsInsert h q pkt = Inr (h', q')" "h a = Some p"
  shows "\<exists>p'. h' a = Some p' \<and> payload p' = payload p"
  using assms
  by (auto simp: aprsPktsInsert_def payload_def split: option.splits)

lemma aprsPktsInsert_head:
  assumes "aprsPktsInsert h q pkt = Inr (h', q')"
  shows "q' = Some pkt \<and> h' pkt \<noteq> None"
  using assms
  by (auto simp: aprsPktsInsert_def split: option.splits)

lemma aprsPktsInsert_total:
  assumes "h pkt \<noteq> None" "head_ok h q"
  shows "\<exists>r. aprsPktsInsert h q pkt = Inr r"
  using assms
  by (auto simp: aprsPktsInsert_def head_ok_def split: option.splits)

lemma make_pkts_loop_result:
  "make_pkts_loop now i (h, b, q) = Inr (h', b', q') \<Longrightarrow> i \<le> 10 \<Longrightarrow>
     b' = b + (10 - i)
     \<and> (\<forall>a p. h a = Some p \<and> a < b \<longrightarrow> (\<exists>p'. h' a = Some p' \<and> payload p' = payload p))
     \<and> (\<forall>j. i \<le> j \<and> j < 10 \<longrightarrow>
           (\<exists>p'. h' (b + (j - i)) = Some p' \<and> payload p' = payload (test_pkt j (now j))))
     \<and> (i < 10 \<or> head_ok h q \<longrightarrow> head_ok h' q')"
proof (induction now i "(h, b, q)" arbitrary: h b q rule: make_pkts_loop.induct)
  case (1 now i h b q)
  show ?case
  proof (cases "i < 10")
    case False
    with "1.prems" show ?thesis by (auto simp: make_pkts_loop.simps)
  next
    case True
    let ?h1 = "h(b \<mapsto> test_pkt i (now i))"
    from True "1.prems"(1) obtain h2 q2 where
      ins: "aprsPktsInsert ?h1 q b = Inr (h2, q2)"
      and rest: "make_pkts_loop now (i + 1) (h2, b + 1, q2) = Inr (h', b', q')"
      by (auto simp: make_pkts_loop.simps [of now i] split: sum.splits)
    from True have le: "i + 1 \<le> 10" by simp
    note IH = "1.hyps" [OF True ins refl rest le]
    have hd2: "head_ok h2 q2" using aprsPktsInsert_head [OF ins] by (simp add: head_ok_def)
    have keep: "\<exists>p'. h' a = Some p' \<and> payload p' = payload p" if "?h1 a = Some p" "a < b + 1" for a p
    proof -
      from aprsPktsInsert_payload [OF ins that(1)] obtain p2 where
        "h2 a = Some p2" "payload p2 = payload p" by blast
      with IH that(2) show ?thesis by fastforce
    qed
    have c1: "b' = b + (10 - i)" using IH True by simp
    have c2: "\<forall>a p. h a = Some p \<and> a < b \<longrightarrow> (\<exists>p'. h' a = Some p' \<and> payload p' = payload p)"
      using keep by simp
    have c3: "\<exists>p'. h' (b + (j - i)) = Some p' \<and> payload p' = payload (test_pkt j (now j))"
      if j: "i \<le> j" "j < 10" for j
    proof (cases "j = i")
      case True
      then show ?thesis using keep [of b "test_pkt i (now i)"] by simp
    next
      case False
      with j have "i + 1 \<le> j" by simp
      with IH j(2) have "\<exists>p'. h' (b + 1 + (j - (i + 1))) = Some p'
          \<and> payload p' = payload (test_pkt j (now j))" by blast
      moreover have "b + 1 + (j - (i + 1)) = b + (j - i)" using \<open>i + 1 \<le> j\<close> by arith
      ultimately show ?thesis by (simp only:)
    qed
    have c4: "head_ok h' q'" using IH hd2 by simp
    show ?thesis using c1 c2 c3 c4 by blast
  qed
qed

lemma make_pkts_loop_total:
  "head_ok h q \<Longrightarrow> \<exists>r. make_pkts_loop now i (h, b, q) = Inr r"
proof (induction now i "(h, b, q)" arbitrary: h b q rule: make_pkts_loop.induct)
  case (1 now i h b q)
  show ?case
  proof (cases "i < 10")
    case False
    then show ?thesis by (simp add: make_pkts_loop.simps)
  next
    case True
    let ?h1 = "h(b \<mapsto> test_pkt i (now i))"
    have "head_ok ?h1 q" using "1.prems" by (auto simp: head_ok_def split: option.splits)
    then obtain h2 q2 where ins: "aprsPktsInsert ?h1 q b = Inr (h2, q2)"
      using aprsPktsInsert_total [of ?h1 b q] by auto
    have "head_ok h2 q2" using aprsPktsInsert_head [OF ins] by (simp add: head_ok_def)
    from "1.hyps" [OF True ins refl this] ins True show ?thesis
      by (simp add: make_pkts_loop.simps [of now i])
  qed
qed

lemma test_pkt_payload:
  "i < 10 \<Longrightarrow> payload (test_pkt i t) =
     ([\<lparr>addr = ''APRS'' @ dec i, ssid = 0\<rparr>, \<lparr>addr = ''N2BP'', ssid = 7\<rparr>],
      '':Test packet '' @ dec i, t)"
  by (simp add: payload_def test_pkt_def sniprintf_def strncpy_def)

lemma update_total:
  assumes "head_ok (heap w) (aprsPkts (status w))"
  shows "\<exists>w'. update inp w = Inr w' \<and> head_ok (heap w') (aprsPkts (status w'))"
proof (cases "makePkts (mode w)")
  case False
  then show ?thesis using assms by (simp add: update_no_pkts control_status_fields)
next
  case True
  from make_pkts_loop_total [OF assms] obtain h b q where
    l: "make_pkts_loop (in_time inp) 0 (heap w, brk w, aprsPkts (status w)) = Inr (h, b, q)"
    by (metis prod_cases3)
  from make_pkts_loop_result [OF l] have "head_ok h q" by simp
  with True l show ?thesis
    by (simp add: update_def make_test_pkts_def control_status_fields)
qed

lemma run_total:
  "head_ok (heap w) (aprsPkts (status w)) \<Longrightarrow> \<exists>w'. run w inps = Inr w'"
proof (induction inps arbitrary: w)
  case Nil
  then show ?case by simp
next
  case (Cons inp inps)
  from update_total [OF Cons.prems, of inp] obtain w1 where
    "update inp w = Inr w1" "head_ok (heap w1) (aprsPkts (status w1))" by blast
  with Cons.IH [of w1] show ?case by simp
qed

lemma update_after_pkts:
  assumes "\<not> makePkts (mode w)" "update inp w = Inr w'"
  shows "heap w' = heap w" "brk w' = brk w" "aprsPkts (status w') = aprsPkts (status w)"
    "\<not> makePkts (mode w')"
  using assms by (auto simp: update_no_pkts control_status_fields)

lemma run_after_pkts:
  "\<not> makePkts (mode w) \<Longrightarrow> run w inps = Inr w' \<Longrightarrow>
     heap w' = heap w \<and> brk w' = brk w \<and> aprsPkts (status w') = aprsPkts (status w)
     \<and> \<not> makePkts (mode w')"
proof (induction inps arbitrary: w)
  case Nil
  then show ?case by simp
next
  case (Cons inp inps)
  from Cons.prems(2) obtain w1 where u: "update inp w = Inr w1" and r: "run w1 inps = Inr w'"
    by (auto split: sum.splits)
  note a = update_after_pkts [OF Cons.prems(1) u]
  from Cons.IH [OF a(4) r] a show ?case by simp
qed

lemma update_first_after_enable:
  assumes "update inp (enable w) = Inr w1"
  shows "brk w1 = brk w + 10" "\<not> makePkts (mode w1)"
    "aprsRecv (status w1) = 10" "aprsSaved (status w1) = 10"
    "\<forall>i<10. \<exists>p. heap w1 (brk w + i) = Some p
        \<and> payload p = payload (test_pkt i (in_time inp i))"
proof -
  from assms obtain w0 where m: "make_test_pkts inp (enable w) = Inr w0" and c: "w1 = control inp w0"
    by (rule update_InrD)
  from m obtain h b q where
    l: "make_pkts_loop (in_time inp) 0 (heap w, brk w, aprsPkts (status w)) = Inr (h, b, q)"
    and w0: "heap w0 = h" "brk w0 = b" "makePkts (mode w0) = False"
      "aprsRecv (status w0) = 10" "aprsSaved (status w0) = 10"
    by (auto simp: make_test_pkts_def enable_def split: sum.splits)
  from make_pkts_loop_result [OF l] have
    r: "b = brk w + 10"
      "\<forall>j. j < 10 \<longrightarrow> (\<exists>p'. h (brk w + j) = Some p'
          \<and> payload p' = payload (test_pkt j (in_time inp j)))"
    by simp_all
  show "brk w1 = brk w + 10" "\<not> makePkts (mode w1)"
    using c w0 r(1) by (simp_all add: control_status_fields)
  show "aprsRecv (status w1) = 10" "aprsSaved (status w1) = 10"
    using c w0 by (simp_all add: control_def tx_exit_fields tx_enter_fields rx_logic_def
        Let_def audio_control_fields collab_defs)
  show "\<forall>i<10. \<exists>p. heap w1 (brk w + i) = Some p
        \<and> payload p = payload (test_pkt i (in_time inp i))"
    using c w0 r(2) by (simp add: control_status_fields)
qed

text \<open>
  Claim C9. The first update after \<open>enable\<close> allocates exactly ten placeholder
  packets; packet \<open>i\<close> has the destination address "APRS" followed by the digit \<open>i\<close> with
  suffix 0, the source address "N2BP" with suffix 7, the payload ":Test packet " followed by
  the digit, and the time read at iteration \<open>i\<close>. Every later update (as long as \<open>enable\<close>
  is not called again) allocates nothing and leaves the packet store and the queue head as
  they are.
\<close>

theorem test_packets_once_per_enable:
  assumes "update inp (enable w) = Inr w1"
    and "run w1 inps = Inr w'"
  shows "brk w1 = brk w + 10
       \<and> (\<forall>i<10. \<exists>p. heap w1 (brk w + i) = Some p
             \<and> addresses p = [\<lparr>addr = ''APRS'' @ dec i, ssid = 0\<rparr>, \<lparr>addr = ''N2BP'', ssid = 7\<rparr>]
             \<and> info p = '':Test packet '' @ dec i
             \<and> ts p = in_time inp i)
       \<and> makePkts (mode w1) = False
       \<and> brk w' = brk w1 \<and> heap w' = heap w1
       \<and> aprsPkts (status w') = aprsPkts (status w1)
       \<and> makePkts (mode w') = False"
proof -
  note f = update_first_after_enable [OF assms(1)]
  have p: "\<exists>p. heap w1 (brk w + i) = Some p
             \<and> addresses p = [\<lparr>addr = ''APRS'' @ dec i, ssid = 0\<rparr>, \<lparr>addr = ''N2BP'', ssid = 7\<rparr>]
             \<and> info p = '':Test packet '' @ dec i
             \<and> ts p = in_time inp i" if "i < 10" for i
  proof -
    from f(5) that obtain p where
      "heap w1 (brk w + i) = Some p" "payload p = payload (test_pkt i (in_time inp i))"
      by blast
    then show ?thesis using test_pkt_payload [OF that, of "in_time inp i"]
      by (auto simp: payload_def)
  qed
  from run_after_pkts [OF f(2) assms(2)] f(1,2) p show ?thesis by simp
qed

theorem test_packets_once_per_enable_witness:
  "\<exists>w1 w'. update inp_idle (enable world0) = Inr w1
     \<and> run w1 [inp_ptt, inp_idle] = Inr w'
     \<and> brk w1 = 11 \<and> brk w' = 11 \<and> heap w' = heap w1
     \<and> (\<exists>p. heap w1 1 = Some p \<and> info p = '':Test packet 0'' \<and> ts p = 1000)"
proof -
  have h0: "head_ok (heap (enable world0)) (aprsPkts (status (enable world0)))"
    by (simp add: head_ok_def enable_def ex_defs)
  from update_total [OF h0, of inp_idle] obtain w1 where
    u: "update inp_idle (enable world0) = Inr w1"
    and h1: "head_ok (heap w1) (aprsPkts (status w1))" by blast
  from run_total [OF h1, of "[inp_ptt, inp_idle]"] obtain w' where
    r: "run w1 [inp_ptt, inp_idle] = Inr w'" by blast
  note t = test_packets_once_per_enable [OF u r]
  from t have b: "brk w1 = 11" "brk w' = 11" "heap w' = heap w1"
    by (simp_all add: ex_defs)
  from t have "\<forall>i<10. \<exists>p. heap w1 (brk world0 + i) = Some p
      \<and> info p = '':Test packet '' @ dec i \<and> ts p = in_time inp_idle i"
    by blast
  then have "\<exists>p. heap w1 (brk world0 + 0) = Some p
      \<and> info p = '':Test packet '' @ dec 0 \<and> ts p = in_time inp_idle 0"
    by (rule allE [of _ 0]) simp
  moreover have "char_of (48::nat) = CHR ''0''" by code_simp
  ultimately have c: "\<exists>p. heap w1 1 = Some p \<and> info p = '':Test packet 0'' \<and> ts p = 1000"
    by (simp add: ex_defs)
  from u r b c show ?thesis by blast
qed

end
